theory Spec2Isabelle
  imports Main
begin

section \<open>Text primitives of the worker\<close>

text \<open>
  The worker (src/index.ts) handles JavaScript strings. A text is modelled as a
  \<^typ>\<open>string\<close>, one \<^typ>\<open>char\<close> per code unit; \<open>length\<close> is the
  JavaScript \<open>.length\<close>. The functions below are the string methods that
  \<open>calculateDiff\<close> and \<open>postToX\<close> call.
\<close>

definition newline :: char where
  "newline = CHR 0x0A"

text \<open>\<open>s.split('\n')\<close>: the segments between line feeds, always at least one.\<close>

fun split_newline :: "string \<Rightarrow> string list" where
  "split_newline [] = [[]]"
| "split_newline (c # cs) =
     (if c = newline then [] # split_newline cs
      else (case split_newline cs of
              [] \<Rightarrow> [[c]]
            | l # ls \<Rightarrow> (c # l) # ls))"

text \<open>\<open>lines.join('\n')\<close>.\<close>

fun join_newline :: "string list \<Rightarrow> string" where
  "join_newline [] = []"
| "join_newline [l] = l"
| "join_newline (l # m # ls) = l @ newline # join_newline (m # ls)"

text \<open>\<open>s.endsWith('\n')\<close>.\<close>

definition endsWith_newline :: "string \<Rightarrow> bool" where
  "endsWith_newline s = (s \<noteq> [] \<and> last s = newline)"

text \<open>
  \<open>s.replace(/\n+$/, "\n")\<close>: the regular expression has no flag, so \<open>$\<close> is the
  end of the text and the only match is the maximal run of line feeds that ends the
  text; it is replaced by one line feed. A text that does not end in a line feed is
  returned as it is.
\<close>

definition replace_trailing_newlines :: "string \<Rightarrow> string" where
  "replace_trailing_newlines s =
     (if endsWith_newline s
      then rev (dropWhile (\<lambda>c. c = newline) (rev s)) @ [newline]
      else s)"

section \<open>The Diff Engine: \<open>calculateDiff\<close>\<close>

text \<open>
  A \<open>Change\<close> of the jsdiff library: the text of the part (\<open>value\<close> in the source,
  \<open>val\<close> here since \<open>value\<close> is a keyword) and its two flags.
\<close>

record Change =
  val :: string
  added :: bool
  removed :: bool

definition NO_DIFFERENCES :: string where
  "NO_DIFFERENCES = ''No textual differences found.''"

text \<open>
  \<open>part.value.split('\n').map(line => `+ ${line}`).join('\n')\<close>, with the sign
  (\<open>+\<close> or \<open>-\<close> and a blank) as a parameter.
\<close>

definition mark_lines :: "string \<Rightarrow> string \<Rightarrow> string" where
  "mark_lines sign v = join_newline (map (\<lambda>line. sign @ line) (split_newline v))"

text \<open>
  The body shared by the \<open>added\<close> and the \<open>removed\<close> branch: append the marked
  lines, then make the result end in a line feed.
\<close>

definition append_marked :: "string \<Rightarrow> string \<Rightarrow> string \<Rightarrow> string" where
  "append_marked diffResult sign v =
     (let r = diffResult @ mark_lines sign v
      in if endsWith_newline v
         then (if \<not> endsWith_newline r then r @ [newline] else r)
         else r @ [newline])"

text \<open>
  One call of the \<open>forEach\<close> callback on the pair \<open>(diffResult, hasChanges)\<close>.
  An unchanged part adds nothing (its rendering is commented out in the source).
\<close>

fun forEach_part :: "Change \<Rightarrow> string \<times> bool \<Rightarrow> string \<times> bool" where
  "forEach_part part (diffResult, hasChanges) =
     (if added part then (append_marked diffResult ''+ '' (val part), True)
      else if removed part then (append_marked diffResult ''- '' (val part), True)
      else (diffResult, hasChanges))"

text \<open>
  What \<open>calculateDiff\<close> does with the list \<open>differences\<close> that \<open>diffLines\<close>
  returned.
\<close>

definition render_differences :: "Change list \<Rightarrow> string" where
  "render_differences differences =
     (let (diffResult, hasChanges) = fold forEach_part differences ([], False);
          diffResult' = replace_trailing_newlines diffResult
      in if \<not> hasChanges then NO_DIFFERENCES else diffResult')"

text \<open>A rendered diff that begins with a line marked as added or as removed.\<close>

definition marked :: "string \<Rightarrow> bool" where
  "marked s = (\<exists>rest. s = ''+ '' @ rest \<or> s = ''- '' @ rest)"

text \<open>
  \<open>calculateDiff(oldText, newText)\<close>. \<open>diffLines\<close> is a function of the jsdiff
  library, which is not part of the repository: it is the first argument.
\<close>

definition calculateDiff ::
  "(string \<Rightarrow> string \<Rightarrow> Change list) \<Rightarrow> string \<Rightarrow> string \<Rightarrow> string" where
  "calculateDiff diffLines_fn oldText newText =
     render_differences (diffLines_fn oldText newText)"

subsection \<open>The line diff of the library\<close>

text \<open>
  Modelled from the library's documentation: \<open>diffLines\<close> of jsdiff (package
  \<open>diff\<close>), called without options. The library cuts both texts into lines, each
  line keeping the line feed that ends it, compares the lines exactly, computes a
  shortest edit script and merges neighbouring lines of one kind into one
  \<open>Change\<close>. Where two texts have several shortest edit scripts, the library's
  choice among them may differ from the one made here. The results below use only
  three facts about it, which hold of every choice: the parts that are not added
  spell the old text, the parts that are not removed spell the new text, and equal
  texts give no added and no removed part.
\<close>

fun tokenize :: "string \<Rightarrow> string list" where
  "tokenize [] = []"
| "tokenize (c # cs) =
     (if c = newline then [c] # tokenize cs
      else (case tokenize cs of
              [] \<Rightarrow> [[c]]
            | t # ts \<Rightarrow> (c # t) # ts))"

datatype edit = Keep | Insert | Delete

definition edit_cost :: "(edit \<times> string) list \<Rightarrow> nat" where
  "edit_cost es = length (filter (\<lambda>e. fst e \<noteq> Keep) es)"

fun edit_script :: "string list \<Rightarrow> string list \<Rightarrow> (edit \<times> string) list" where
  "edit_script [] ys = map (Pair Insert) ys"
| "edit_script (x # xs) [] = map (Pair Delete) (x # xs)"
| "edit_script (x # xs) (y # ys) =
     (if x = y then (Keep, x) # edit_script xs ys
      else (let d = (Delete, x) # edit_script xs (y # ys);
                i = (Insert, y) # edit_script (x # xs) ys
            in if edit_cost d \<le> edit_cost i then d else i))"

definition change_of :: "edit \<Rightarrow> string \<Rightarrow> Change" where
  "change_of e t = \<lparr>val = t, added = (e = Insert), removed = (e = Delete)\<rparr>"

definition same_kind :: "edit \<Rightarrow> Change \<Rightarrow> bool" where
  "same_kind e c = (added c = (e = Insert) \<and> removed c = (e = Delete))"

fun components :: "(edit \<times> string) list \<Rightarrow> Change list" where
  "components [] = []"
| "components ((e, t) # es) =
     (case components es of
        [] \<Rightarrow> [change_of e t]
      | c # cs \<Rightarrow>
          (if same_kind e c then c\<lparr>val := t @ val c\<rparr> # cs
           else change_of e t # c # cs))"

definition diffLines :: "string \<Rightarrow> string \<Rightarrow> Change list" where
  "diffLines oldStr newStr = components (edit_script (tokenize oldStr) (tokenize newStr))"

section \<open>The Publisher: \<open>postToX\<close>\<close>

definition MAX_TWEET_LENGTH :: nat where
  "MAX_TWEET_LENGTH = 280"

text \<open>
  The text that \<open>postToX\<close> sends: \<open>recap.substring(0, MAX_TWEET_LENGTH - 3) + '...'\<close>
  when the recap is longer than the limit, the recap otherwise.
\<close>

definition tweetText :: "string \<Rightarrow> string" where
  "tweetText recap =
     (if length recap > MAX_TWEET_LENGTH
      then take (MAX_TWEET_LENGTH - 3) recap @ ''...''
      else recap)"

section \<open>Retry with backoff: \<open>withRetry\<close>\<close>

record RetryConfig =
  maxAttempts :: nat
  initialDelay :: nat
  maxDelay :: nat
  backoffMultiplier :: nat

definition RETRY_CONFIG :: RetryConfig where
  "RETRY_CONFIG =
     \<lparr>maxAttempts = 3, initialDelay = 1000, maxDelay = 10000, backoffMultiplier = 2\<rparr>"

text \<open>
  The \<open>for\<close> loop of \<open>withRetry\<close>, from attempt number \<open>attempt\<close> on. The
  operation \<open>fn\<close> is given by what its call at each attempt number does: \<open>Inl e\<close>
  when it throws the error \<open>e\<close>, \<open>Inr v\<close> when it returns \<open>v\<close>. The loop state is
  \<open>lastError\<close> (\<open>None\<close> while nothing was thrown) and the delays slept so far, in
  milliseconds. The result is \<open>Inr v\<close> for \<open>return v\<close> and \<open>Inl lastError\<close> for
  the \<open>throw lastError\<close> after the loop.
\<close>

function withRetry_loop ::
  "(nat \<Rightarrow> 'e + 'a) \<Rightarrow> RetryConfig \<Rightarrow> nat \<Rightarrow> 'e option \<Rightarrow> nat list
     \<Rightarrow> ('e option + 'a) \<times> nat list" where
  "withRetry_loop fn config attempt lastError delays =
     (if attempt \<le> maxAttempts config
      then (case fn attempt of
              Inr v \<Rightarrow> (Inr v, delays)
            | Inl e \<Rightarrow>
                withRetry_loop fn config (Suc attempt) (Some e)
                  (if attempt < maxAttempts config
                   then delays @
                     [min (initialDelay config * backoffMultiplier config ^ (attempt - 1))
                        (maxDelay config)]
                   else delays))
      else (Inl lastError, delays))"
  by pat_completeness auto
termination
  by (relation "measure (\<lambda>(fn, config, attempt, lastError, delays).
        Suc (maxAttempts config) - attempt)") auto

declare withRetry_loop.simps [simp del]

definition withRetry :: "(nat \<Rightarrow> 'e + 'a) \<Rightarrow> RetryConfig \<Rightarrow> ('e option + 'a) \<times> nat list" where
  "withRetry fn config = withRetry_loop fn config 1 None []"

section \<open>The key-value store \<open>CHANGELOG_KV\<close>\<close>

text \<open>
  A stored value and the time, in seconds, at which the store drops it (\<open>None\<close>:
  never). \<open>get\<close> returns \<open>null\<close> (\<open>None\<close>) for a key that was never written or
  whose expiration has passed. \<open>put(key, value, {expirationTtl: n})\<close> stores the
  value with the expiration \<open>n\<close> seconds from now; \<open>put(key, value)\<close> stores it
  without expiration, replacing the entry and so any expiration the key had. The
  store is taken to be reliable and consistent: \<open>get\<close> and \<open>put\<close> do not throw,
  and a \<open>get\<close> sees the last \<open>put\<close>.
\<close>

record 'a kv_entry =
  stored :: 'a
  expiration :: "nat option"

definition kv_get :: "nat \<Rightarrow> 'a kv_entry option \<Rightarrow> 'a option" where
  "kv_get now entry =
     (case entry of
        None \<Rightarrow> None
      | Some e \<Rightarrow>
          (case expiration e of
             None \<Rightarrow> Some (stored e)
           | Some t \<Rightarrow> if now < t then Some (stored e) else None))"

definition kv_put :: "nat \<Rightarrow> 'a \<Rightarrow> nat option \<Rightarrow> 'a kv_entry option" where
  "kv_put now v expirationTtl =
     Some \<lparr>stored = v, expiration = map_option (\<lambda>ttl. now + ttl) expirationTtl\<rparr>"

datatype post_status = PENDING_CONFIRMATION | POSTED_TO_X | FAILED_TO_POST

record PendingPostData =
  recap :: string
  diff :: string
  originalChangelogUrl :: string
  timestamp :: string
  status :: post_status

text \<open>
  The worker uses two kinds of key: \<open>latest_changelog_markdown\<close>, which holds the
  last Markdown text, and \<open>post:<postID>\<close>, which holds
  \<open>JSON.stringify(pendingPost)\<close> and is read back with \<open>JSON.parse\<close>. The two
  kinds never coincide, so the namespace is the pair of the first entry and the map
  from \<open>postID\<close> to the entry of \<open>post:<postID>\<close>, the latter holding the record
  that the JSON text encodes.
\<close>

record KVNamespace =
  latest_changelog_markdown :: "string kv_entry option"
  post :: "string \<Rightarrow> PendingPostData kv_entry option"

section \<open>Collaborators\<close>

text \<open>
  The Telegram messages. \<open>sendTelegramMessage\<close> catches every error of its own, so
  a call never throws; the model records the messages handed to it, one constructor
  for each call site, with the values that the source interpolates into the text.
\<close>

datatype message =
    EnvValidationFailed "string list"
  | MonitorError string
  | NewChangelogDetected string string string
  | LinkExpired string
  | AlreadyPublishedNotice string
  | StatusNotPending string
  | PostedSuccessfully string
  | PostFailed string string
  | UnexpectedError string string

text \<open>What one invocation of a handler did: the store it leaves, the Telegram
  messages it sent, the texts it posted to X, and the branch it ended in.\<close>

record 'o effects =
  store :: KVNamespace
  sent :: "message list"
  published :: "string list"
  outcome :: 'o

record Response =
  ok :: bool
  status_code :: nat
  statusText :: string
  body :: string

text \<open>A call of \<open>fetch\<close> throws an error with a message or returns a response.\<close>

datatype fetch_result = Rejected string | Resolved Response

fun decimal :: "nat \<Rightarrow> string" where
  "decimal n =
     (if n < 10 then [''0123456789'' ! n]
      else decimal (n div 10) @ [''0123456789'' ! (n mod 10)])"

text \<open>The operation that \<open>handleScheduled\<close> hands to \<open>withRetry\<close>.\<close>

definition fetch_changelog :: "fetch_result \<Rightarrow> string + string" where
  "fetch_changelog r =
     (case r of
        Rejected e \<Rightarrow> Inl e
      | Resolved response \<Rightarrow>
          if \<not> ok response
          then Inl (''Error fetching changelog: '' @ decimal (status_code response)
                      @ '' '' @ statusText response)
          else Inr (body response))"

text \<open>\<open>text.trim()\<close> on the white space among the code units below 256.\<close>

definition is_space :: "char \<Rightarrow> bool" where
  "is_space c = (c \<in> set [CHR 0x09, CHR 0x0A, CHR 0x0B, CHR 0x0C, CHR 0x0D, CHR 0x20, CHR 0xA0])"

definition trim :: "string \<Rightarrow> string" where
  "trim s = rev (dropWhile is_space (rev (dropWhile is_space s)))"

text \<open>
  \<open>getGeminiRecap\<close>. One call of the Gemini API throws (\<open>Inl\<close>: the request
  failed, or the status was not ok) or returns the parsed response, of which the
  source reads \<open>candidates[0].content.parts[0].text\<close>: \<open>Inr None\<close> when that path
  does not exist, \<open>Inr (Some text)\<close> otherwise. An empty text is falsy.
\<close>

definition getGeminiRecap :: "(nat \<Rightarrow> string + string option) \<Rightarrow> string option" where
  "getGeminiRecap api =
     (case fst (withRetry api RETRY_CONFIG) of
        Inl lastError \<Rightarrow> None
      | Inr None \<Rightarrow> None
      | Inr (Some text) \<Rightarrow> if text = [] then None else Some (trim text))"

text \<open>
  One call of the X API inside \<open>postToX\<close>: \<open>fetch\<close> throws, or the status is not
  ok (status, status text, body), or the response is ok and \<open>response.json()\<close>
  throws or gives an object, of which the source reads \<open>data?.id\<close> and, for the
  error text, \<open>JSON.stringify(responseData)\<close>.
\<close>

datatype x_body = Unparsable string | TwitterResponse "string option" string

datatype x_attempt = XRejected string | XNotOk nat string string | XOk x_body

record PostResult =
  success :: bool
  error :: "string option"

definition post_tweet :: "string \<Rightarrow> x_attempt \<Rightarrow> string + x_body" where
  "post_tweet postID r =
     (case r of
        XRejected e \<Rightarrow> Inl e
      | XNotOk code text errorBody \<Rightarrow>
          Inl (''['' @ postID @ ''] Twitter API error: '' @ decimal code @ '' '' @ text
                 @ '' - '' @ errorBody)
      | XOk b \<Rightarrow> Inr b)"

text \<open>
  \<open>postToX\<close> after the text is cut: the request goes through \<open>withRetry\<close> with two
  attempts, and every error is caught and returned as a failure. (The OAuth
  signature is computed inside the same \<open>try\<close>; it does not change the text and is
  left out.)
\<close>

definition postToX :: "string \<Rightarrow> string \<Rightarrow> (nat \<Rightarrow> x_attempt) \<Rightarrow> PostResult" where
  "postToX postID recap_text x_api =
     (case fst (withRetry (\<lambda>n. post_tweet postID (x_api n)) (RETRY_CONFIG\<lparr>maxAttempts := 2\<rparr>)) of
        Inl lastError \<Rightarrow>
          \<lparr>success = False,
           error = Some (''Failed to post to X/Twitter: '' @
                     (case lastError of None \<Rightarrow> ''undefined'' | Some e \<Rightarrow> e))\<rparr>
      | Inr (Unparsable e) \<Rightarrow>
          \<lparr>success = False, error = Some (''Failed to post to X/Twitter: '' @ e)\<rparr>
      | Inr (TwitterResponse tweet_id json) \<Rightarrow>
          (if tweet_id \<noteq> None \<and> tweet_id \<noteq> Some []
           then \<lparr>success = True, error = None\<rparr>
           else \<lparr>success = False,
                 error = Some (''Unexpected Twitter API response: '' @ json)\<rparr>))"

section \<open>The Change Detector: \<open>handleScheduled\<close>\<close>

text \<open>The settings of \<open>env\<close> that the two handlers read (\<open>CHANGELOG_NAME\<close> is
  optional: the empty text stands for a missing one, both are falsy).\<close>

record Env =
  TARGET_CHANGELOG_URL :: string
  WORKER_URL :: string
  CHANGELOG_NAME :: string

text \<open>
  What the outside does during one detection cycle: the errors that
  \<open>validateEnv(env)\<close> lists, the result of each call of \<open>fetch\<close> on the changelog,
  the HTML to Markdown conversion, the line diff of the library, the Gemini API
  (for a diff text, the result of each call), \<open>crypto.randomUUID()\<close>,
  \<open>new Date().toISOString()\<close> and the clock of the store in seconds.
\<close>

record Outside =
  validationErrors :: "string list"
  fetch_page :: "nat \<Rightarrow> fetch_result"
  convertToMarkdown :: "string \<Rightarrow> string"
  diffLines_fn :: "string \<Rightarrow> string \<Rightarrow> Change list"
  gemini_api :: "string \<Rightarrow> nat \<Rightarrow> string + string option"
  randomUUID :: string
  toISOString :: string
  clock :: nat

text \<open>
  The result of a cycle in the terms of the specification: \<open>NoChange\<close>,
  \<open>ChangeDetected diff\<close>, or an error. \<open>handleScheduled\<close> itself returns nothing;
  the outcome names the branch taken. \<open>HandlerRejected\<close> is the \<open>catch\<close> block
  failing on an undefined error, which needs a retry configuration without attempts.
\<close>

datatype cycle_outcome =
    EnvInvalid
  | NoChange
  | ChangeDetected string
  | CycleError string
  | HandlerRejected

definition put_latest :: "nat \<Rightarrow> string \<Rightarrow> KVNamespace \<Rightarrow> KVNamespace" where
  "put_latest now markdownContent kv =
     kv\<lparr>latest_changelog_markdown := kv_put now markdownContent None\<rparr>"

definition put_post ::
  "nat \<Rightarrow> string \<Rightarrow> PendingPostData \<Rightarrow> nat option \<Rightarrow> KVNamespace \<Rightarrow> KVNamespace" where
  "put_post now postID p expirationTtl kv =
     kv\<lparr>post := (post kv)(postID := kv_put now p expirationTtl)\<rparr>"

definition handleScheduled :: "Env \<Rightarrow> Outside \<Rightarrow> KVNamespace \<Rightarrow> cycle_outcome effects" where
  "handleScheduled env out kv =
     (if validationErrors out \<noteq> []
      then \<lparr>store = kv, sent = [EnvValidationFailed (validationErrors out)],
            published = [], outcome = EnvInvalid\<rparr>
      else
        let changelogUrl = TARGET_CHANGELOG_URL env in
        (case fst (withRetry (\<lambda>n. fetch_changelog (fetch_page out n)) RETRY_CONFIG) of
           Inl None \<Rightarrow> \<lparr>store = kv, sent = [], published = [], outcome = HandlerRejected\<rparr>
         | Inl (Some e) \<Rightarrow>
             \<lparr>store = kv, sent = [MonitorError e], published = [], outcome = CycleError e\<rparr>
         | Inr pageContent \<Rightarrow>
             let markdownContent = convertToMarkdown out pageContent in
             (case kv_get (clock out) (latest_changelog_markdown kv) of
                None \<Rightarrow>
                  \<lparr>store = put_latest (clock out) markdownContent kv, sent = [], published = [],
                   outcome = NoChange\<rparr>
              | Some previousMarkdown \<Rightarrow>
                  if previousMarkdown = markdownContent
                  then \<lparr>store = kv, sent = [], published = [], outcome = NoChange\<rparr>
                  else
                    let diff_text = calculateDiff (diffLines_fn out) previousMarkdown markdownContent in
                    if diff_text = NO_DIFFERENCES
                    then \<lparr>store = put_latest (clock out) markdownContent kv, sent = [], published = [],
                          outcome = NoChange\<rparr>
                    else
                      (case getGeminiRecap (gemini_api out diff_text) of
                         None \<Rightarrow>
                           \<lparr>store = put_latest (clock out) markdownContent kv, sent = [], published = [],
                            outcome = ChangeDetected diff_text\<rparr>
                       | Some recap_text \<Rightarrow>
                           if recap_text = []
                           then \<lparr>store = put_latest (clock out) markdownContent kv, sent = [],
                                 published = [], outcome = ChangeDetected diff_text\<rparr>
                           else
                             let postId = randomUUID out;
                                 pendingPost =
                                   \<lparr>recap = recap_text, diff = diff_text,
                                    originalChangelogUrl = changelogUrl,
                                    timestamp = toISOString out,
                                    status = PENDING_CONFIRMATION\<rparr>;
                                 kv1 = put_post (clock out) postId pendingPost (Some 86400) kv;
                                 confirmationUrl = WORKER_URL env @ ''/confirm/'' @ postId
                             in \<lparr>store = put_latest (clock out) markdownContent kv1,
                                 sent = [NewChangelogDetected
                                   (if CHANGELOG_NAME env \<noteq> [] then CHANGELOG_NAME env
                                    else changelogUrl)
                                   recap_text confirmationUrl],
                                 published = [],
                                 outcome = ChangeDetected diff_text\<rparr>))))"

section \<open>The Draft Lifecycle Manager: the \<open>POST /confirm/<postID>\<close> handler\<close>

text \<open>
  The result of a confirmation in the terms of the specification. The handler
  returns nothing; the outcome names the branch taken, which the source reports
  through the Telegram message it sends.
\<close>

datatype confirm_outcome =
    Published
  | AlreadyPublished
  | NotPending
  | NotFound
  | PublishFailed string

definition failure_reason :: "PostResult \<Rightarrow> string" where
  "failure_reason result =
     (case error result of
        None \<Rightarrow> ''No specific error was provided.''
      | Some e \<Rightarrow> if e = [] then ''No specific error was provided.'' else e)"

text \<open>
  The background task of the handler, run at time \<open>now\<close> of the store's clock for
  the id of the path, with the X API given by the result of each of its calls. The
  \<open>catch\<close> block of the source is not reached: \<open>postToX\<close> and
  \<open>sendTelegramMessage\<close> catch their own errors.
\<close>

definition confirm ::
  "nat \<Rightarrow> string \<Rightarrow> (nat \<Rightarrow> x_attempt) \<Rightarrow> KVNamespace \<Rightarrow> confirm_outcome effects" where
  "confirm now postID x_api kv =
     (case kv_get now (post kv postID) of
        None \<Rightarrow>
          \<lparr>store = kv, sent = [LinkExpired postID], published = [], outcome = NotFound\<rparr>
      | Some pendingPost \<Rightarrow>
          if status pendingPost = POSTED_TO_X
          then \<lparr>store = kv, sent = [AlreadyPublishedNotice postID], published = [],
                outcome = AlreadyPublished\<rparr>
          else if status pendingPost \<noteq> PENDING_CONFIRMATION
          then \<lparr>store = kv, sent = [StatusNotPending postID], published = [],
                outcome = NotPending\<rparr>
          else
            let result = postToX postID (recap pendingPost) x_api in
            if success result
            then \<lparr>store = put_post now postID (pendingPost\<lparr>status := POSTED_TO_X\<rparr>) None kv,
                  sent = [PostedSuccessfully postID],
                  published = [tweetText (recap pendingPost)],
                  outcome = Published\<rparr>
            else \<lparr>store = put_post now postID (pendingPost\<lparr>status := FAILED_TO_POST\<rparr>) None kv,
                  sent = [PostFailed postID (failure_reason result)],
                  published = [tweetText (recap pendingPost)],
                  outcome = PublishFailed (failure_reason result)\<rparr>)"

subsection \<open>Invocations that overlap\<close>

text \<open>
  An invocation of the handler suspends at each \<open>await\<close>, and another invocation
  may run in between. The task is cut at its awaits into three steps: read the
  entry and check it (\<open>Reading\<close>), call \<open>postToX\<close> (\<open>Posting\<close>), write the
  entry and report (\<open>Writing\<close>). \<open>Finished\<close> holds the outcome.
\<close>

datatype task =
    Reading
  | Posting PendingPostData
  | Writing PendingPostData PostResult
  | Finished confirm_outcome

text \<open>The state shared by the invocations: store, messages sent, texts posted.\<close>

record shared =
  kv_now :: KVNamespace
  messages :: "message list"
  posted :: "string list"

text \<open>The shared state before any step: the store, nothing sent, nothing posted.\<close>

definition fresh :: "KVNamespace \<Rightarrow> shared" where
  "fresh kv = \<lparr>kv_now = kv, messages = [], posted = []\<rparr>"

fun confirm_step ::
  "nat \<Rightarrow> string \<Rightarrow> (nat \<Rightarrow> x_attempt) \<Rightarrow> task \<Rightarrow> shared \<Rightarrow> task \<times> shared" where
  "confirm_step now postID x_api Reading s =
     (case kv_get now (post (kv_now s) postID) of
        None \<Rightarrow> (Finished NotFound, s\<lparr>messages := messages s @ [LinkExpired postID]\<rparr>)
      | Some pendingPost \<Rightarrow>
          if status pendingPost = POSTED_TO_X
          then (Finished AlreadyPublished,
                s\<lparr>messages := messages s @ [AlreadyPublishedNotice postID]\<rparr>)
          else if status pendingPost \<noteq> PENDING_CONFIRMATION
          then (Finished NotPending, s\<lparr>messages := messages s @ [StatusNotPending postID]\<rparr>)
          else (Posting pendingPost, s))"
| "confirm_step now postID x_api (Posting pendingPost) s =
     (Writing pendingPost (postToX postID (recap pendingPost) x_api),
      s\<lparr>posted := posted s @ [tweetText (recap pendingPost)]\<rparr>)"
| "confirm_step now postID x_api (Writing pendingPost result) s =
     (if success result
      then (Finished Published,
            s\<lparr>kv_now := put_post now postID (pendingPost\<lparr>status := POSTED_TO_X\<rparr>) None (kv_now s),
              messages := messages s @ [PostedSuccessfully postID]\<rparr>)
      else (Finished (PublishFailed (failure_reason result)),
            s\<lparr>kv_now := put_post now postID (pendingPost\<lparr>status := FAILED_TO_POST\<rparr>) None (kv_now s),
              messages := messages s @ [PostFailed postID (failure_reason result)]\<rparr>))"
| "confirm_step now postID x_api (Finished r) s = (Finished r, s)"

text \<open>
  Two invocations for the same id, with their own X API results, under a schedule:
  \<open>True\<close> lets the first invocation take its next step, \<open>False\<close> the second.
\<close>

fun run_two ::
  "nat \<Rightarrow> string \<Rightarrow> (nat \<Rightarrow> x_attempt) \<Rightarrow> (nat \<Rightarrow> x_attempt) \<Rightarrow> bool list
     \<Rightarrow> task \<times> task \<times> shared \<Rightarrow> task \<times> task \<times> shared" where
  "run_two now postID x1 x2 [] st = st"
| "run_two now postID x1 x2 (b # bs) (t1, t2, s) =
     (if b
      then (case confirm_step now postID x1 t1 s of
              (t1', s') \<Rightarrow> run_two now postID x1 x2 bs (t1', t2, s'))
      else (case confirm_step now postID x2 t2 s of
              (t2', s') \<Rightarrow> run_two now postID x1 x2 bs (t1, t2', s')))"

section \<open>Scenarios\<close>

text \<open>
  Concrete collaborators and stores on which the properties below are exercised:
  a changelog page that is served and one that is not, a conversion to Markdown that
  keeps the page text, a summarizer that answers \<open>Recap\<close>, the draft id \<open>d1\<close>,
  and a store clock at 1000 seconds.
\<close>

definition always :: "'a \<Rightarrow> nat \<Rightarrow> 'a" where
  "always r n = r"

definition served :: "string \<Rightarrow> fetch_result" where
  "served html = Resolved \<lparr>ok = True, status_code = 200, statusText = ''OK'', body = html\<rparr>"

definition unavailable :: fetch_result where
  "unavailable =
     Resolved \<lparr>ok = False, status_code = 503, statusText = ''Service Unavailable'', body = []\<rparr>"

definition keep_text :: "string \<Rightarrow> string" where
  "keep_text html = html"

definition recap_given :: "string \<Rightarrow> nat \<Rightarrow> string + string option" where
  "recap_given diff_text n = Inr (Some ''Recap'')"

definition scenario ::
  "(nat \<Rightarrow> fetch_result) \<Rightarrow> (string \<Rightarrow> string \<Rightarrow> Change list) \<Rightarrow> Outside" where
  "scenario pages line_diff =
     \<lparr>validationErrors = [], fetch_page = pages, convertToMarkdown = keep_text,
      diffLines_fn = line_diff, gemini_api = recap_given, randomUUID = ''d1'',
      toISOString = ''2025-01-01T00:00:00.000Z'', clock = 1000\<rparr>"

definition example_env :: Env where
  "example_env =
     \<lparr>TARGET_CHANGELOG_URL = ''https://example.com/changelog'',
      WORKER_URL = ''https://worker.example'', CHANGELOG_NAME = []\<rparr>"

definition no_posts :: "string \<Rightarrow> PendingPostData kv_entry option" where
  "no_posts postID = None"

definition empty_kv :: KVNamespace where
  "empty_kv = \<lparr>latest_changelog_markdown = None, post = no_posts\<rparr>"

definition kv_with_snapshot :: "string \<Rightarrow> KVNamespace" where
  "kv_with_snapshot markdown =
     \<lparr>latest_changelog_markdown = Some \<lparr>stored = markdown, expiration = None\<rparr>,
      post = no_posts\<rparr>"

definition pending_draft :: PendingPostData where
  "pending_draft =
     \<lparr>recap = ''Recap'', diff = ''+ Line3'', originalChangelogUrl = ''https://example.com/changelog'',
      timestamp = ''2025-01-01T00:00:00.000Z'', status = PENDING_CONFIRMATION\<rparr>"

text \<open>The store after the draft \<open>d1\<close> was created at time 1000, as \<open>handleScheduled\<close>
  writes it: with an expiration 86400 seconds later.\<close>

definition kv_with_draft :: KVNamespace where
  "kv_with_draft = put_post 1000 ''d1'' pending_draft (Some 86400) empty_kv"

definition tweet_accepted :: "nat \<Rightarrow> x_attempt" where
  "tweet_accepted n = XOk (TwitterResponse (Some ''42'') ''{}'')"

definition tweet_refused :: "nat \<Rightarrow> x_attempt" where
  "tweet_refused n = XNotOk 403 ''Forbidden'' []"

section \<open>Properties of the Diff Engine\<close>

subsection \<open>Rendering\<close>

lemma split_newline_nonempty: "split_newline s \<noteq> []"
  by (induction s) (auto split: list.splits)

lemma join_map_sign:
  "ls \<noteq> [] \<Longrightarrow> \<exists>rest. join_newline (map (\<lambda>line. sign @ line) ls) = sign @ rest"
  by (cases ls rule: join_newline.cases) auto

lemma mark_lines_sign: "\<exists>rest. mark_lines sign v = sign @ rest"
  unfolding mark_lines_def using join_map_sign [OF split_newline_nonempty] by blast

lemma append_marked_extends: "\<exists>rest. append_marked r sign v = r @ mark_lines sign v @ rest"
  by (auto simp: append_marked_def Let_def)

lemma append_marked_marked:
  assumes "r = [] \<or> marked r" and "sign = ''+ '' \<or> sign = ''- ''"
  shows "marked (append_marked r sign v)"
proof -
  obtain rest where e: "append_marked r sign v = r @ mark_lines sign v @ rest"
    using append_marked_extends by blast
  obtain m where m: "mark_lines sign v = sign @ m"
    using mark_lines_sign by blast
  show ?thesis
  proof (cases "r = []")
    case True
    with e m assms(2) show ?thesis by (auto simp: marked_def)
  next
    case False
    with assms(1) have "marked r" by simp
    with e show ?thesis by (auto simp: marked_def)
  qed
qed

lemma fold_forEach_marked:
  "r = [] \<or> marked r \<Longrightarrow> h \<or> (\<exists>p \<in> set ds. added p \<or> removed p) \<Longrightarrow> (h \<longrightarrow> marked r) \<Longrightarrow>
   marked (fst (fold forEach_part ds (r, h))) \<and> snd (fold forEach_part ds (r, h))"
proof (induction ds arbitrary: r h)
  case Nil
  then show ?case by simp
next
  case (Cons p ds)
  show ?case
  proof (cases "added p \<or> removed p")
    case True
    define sign where "sign = (if added p then ''+ '' else ''- '')"
    have s: "sign = ''+ '' \<or> sign = ''- ''"
      by (simp add: sign_def)
    have f: "forEach_part p (r, h) = (append_marked r sign (val p), True)"
      using True by (auto simp: sign_def)
    have "marked (append_marked r sign (val p))"
      using append_marked_marked [OF Cons.prems(1) s] .
    then show ?thesis using Cons.IH [of "append_marked r sign (val p)" True] f by simp
  next
    case False
    then have f: "forEach_part p (r, h) = (r, h)" by simp
    from False Cons.prems(2) have "h \<or> (\<exists>p \<in> set ds. added p \<or> removed p)" by auto
    then show ?thesis using Cons.IH [of r h] Cons.prems f by simp
  qed
qed

lemma fold_forEach_unchanged:
  "\<forall>p \<in> set ds. \<not> added p \<and> \<not> removed p \<Longrightarrow> fold forEach_part ds (r, h) = (r, h)"
  by (induction ds) auto

lemma replace_trailing_prefix:
  assumes "sign \<noteq> []" and "last sign \<noteq> newline"
  shows "\<exists>rest'. replace_trailing_newlines (sign @ rest) = sign @ rest'"
proof -
  have d: "dropWhile (\<lambda>c. c = newline) (rev sign) = rev sign"
    using assms by (cases sign rule: rev_cases) auto
  have "rev (dropWhile (\<lambda>c. c = newline) (rev (sign @ rest)))
          = sign @ rev (dropWhile (\<lambda>c. c = newline) (rev rest))"
    by (simp add: dropWhile_append d)
  then show ?thesis
    by (simp add: replace_trailing_newlines_def)
qed

lemma replace_trailing_marked: "marked s \<Longrightarrow> marked (replace_trailing_newlines s)"
  unfolding marked_def
  using replace_trailing_prefix [of "''+ ''"] replace_trailing_prefix [of "''- ''"]
  by (auto simp: newline_def)

lemma marked_facts:
  assumes "marked s"
  shows "s \<noteq> NO_DIFFERENCES" and "s \<noteq> []"
    and "\<exists>l \<in> set (split_newline s). take 2 l = ''+ '' \<or> take 2 l = ''- ''"
proof -
  from assms show "s \<noteq> NO_DIFFERENCES" by (auto simp: marked_def NO_DIFFERENCES_def)
  from assms show "s \<noteq> []" by (auto simp: marked_def)
  from assms obtain rest where s: "s = ''+ '' @ rest \<or> s = ''- '' @ rest"
    unfolding marked_def by blast
  obtain l ls where l: "split_newline rest = l # ls"
    using split_newline_nonempty [of rest] by (cases "split_newline rest") auto
  from s l show "\<exists>l \<in> set (split_newline s). take 2 l = ''+ '' \<or> take 2 l = ''- ''"
    by (auto simp: newline_def)
qed

lemma render_changed:
  assumes "\<exists>p \<in> set ds. added p \<or> removed p"
  shows "marked (render_differences ds)"
proof -
  obtain r h where f: "fold forEach_part ds ([], False) = (r, h)"
    by (cases "fold forEach_part ds ([], False)")
  have "marked r \<and> h"
    using fold_forEach_marked [of "[]" False ds] assms f by simp
  then show ?thesis
    using f replace_trailing_marked by (simp add: render_differences_def)
qed

lemma render_unchanged:
  assumes "\<forall>p \<in> set ds. \<not> added p \<and> \<not> removed p"
  shows "render_differences ds = NO_DIFFERENCES"
  using fold_forEach_unchanged [OF assms, of "[]" False]
  by (simp add: render_differences_def)

subsection \<open>The line diff is an edit script\<close>

lemma concat_tokenize: "concat (tokenize s) = s"
  by (induction s) (auto split: list.splits)

lemma edit_script_old:
  "map snd (filter (\<lambda>e. fst e \<noteq> Insert) (edit_script xs ys)) = xs"
  by (induction xs ys rule: edit_script.induct) (auto simp: Let_def comp_def)

lemma edit_script_new:
  "map snd (filter (\<lambda>e. fst e \<noteq> Delete) (edit_script xs ys)) = ys"
  by (induction xs ys rule: edit_script.induct) (auto simp: Let_def comp_def)

lemma edit_script_same: "edit_script xs xs = map (Pair Keep) xs"
  by (induction xs) auto

lemma components_old:
  "concat (map val (filter (\<lambda>c. \<not> added c) (components es)))
     = concat (map snd (filter (\<lambda>e. fst e \<noteq> Insert) es))"
  by (induction es rule: components.induct)
     (auto simp: change_of_def same_kind_def split: list.splits)

lemma components_new:
  "concat (map val (filter (\<lambda>c. \<not> removed c) (components es)))
     = concat (map snd (filter (\<lambda>e. fst e \<noteq> Delete) es))"
  by (induction es rule: components.induct)
     (auto simp: change_of_def same_kind_def split: list.splits)

lemma components_kinds:
  "c \<in> set (components es) \<Longrightarrow> \<exists>e \<in> set es. same_kind (fst e) c"
  by (induction es arbitrary: c rule: components.induct)
     (auto simp: change_of_def same_kind_def split: list.splits if_splits)

lemma diffLines_old: "concat (map val (filter (\<lambda>c. \<not> added c) (diffLines a b))) = a"
  by (simp add: diffLines_def components_old edit_script_old concat_tokenize)

lemma diffLines_new: "concat (map val (filter (\<lambda>c. \<not> removed c) (diffLines a b))) = b"
  by (simp add: diffLines_def components_new edit_script_new concat_tokenize)

lemma diffLines_same: "c \<in> set (diffLines a a) \<Longrightarrow> \<not> added c \<and> \<not> removed c"
  using components_kinds [of c "edit_script (tokenize a) (tokenize a)"]
  by (auto simp: diffLines_def edit_script_same same_kind_def)

lemma script_differs:
  assumes "concat (map val (filter (\<lambda>c. \<not> added c) ds)) = a"
    and "concat (map val (filter (\<lambda>c. \<not> removed c) ds)) = b"
    and "a \<noteq> b"
  shows "\<exists>p \<in> set ds. added p \<or> removed p"
proof (rule ccontr)
  assume "\<not> (\<exists>p \<in> set ds. added p \<or> removed p)"
  then have "filter (\<lambda>c. \<not> added c) ds = ds" and "filter (\<lambda>c. \<not> removed c) ds = ds"
    by (auto simp: filter_id_conv)
  with assms show False by simp
qed

subsection \<open>Classification\<close>

text \<open>
  C7. Two texts that are not equal differ in at least one whole line, since the
  lines of a text spell it. For every such pair, \<open>calculateDiff\<close> does not return
  the sentinel of an unchanged text: it returns a rendered diff that is not empty and
  has at least one line marked as an addition (\<open>+\<close> and a blank) or as a removal
  (\<open>-\<close> and a blank).
\<close>

theorem calculateDiff_changed:
  assumes "A \<noteq> B"
  shows "calculateDiff diffLines A B \<noteq> NO_DIFFERENCES
       \<and> calculateDiff diffLines A B \<noteq> []
       \<and> (\<exists>l \<in> set (split_newline (calculateDiff diffLines A B)).
             take 2 l = ''+ '' \<or> take 2 l = ''- '')"
proof -
  have "\<exists>p \<in> set (diffLines A B). added p \<or> removed p"
    using script_differs [OF diffLines_old diffLines_new assms] .
  then have "marked (calculateDiff diffLines A B)"
    unfolding calculateDiff_def by (rule render_changed)
  then show ?thesis
    using marked_facts by blast
qed

theorem calculateDiff_changed_witness:
  "''Line1'' \<noteq> ''Line2''
   \<and> calculateDiff diffLines ''Line1'' ''Line2'' = [CHR ''-'', CHR '' '', CHR ''L'', CHR ''i'',
        CHR ''n'', CHR ''e'', CHR ''1'', newline, CHR ''+'', CHR '' '', CHR ''L'', CHR ''i'',
        CHR ''n'', CHR ''e'', CHR ''2'', newline]
   \<and> calculateDiff diffLines ''Line1'' ''Line2'' \<noteq> NO_DIFFERENCES
   \<and> calculateDiff diffLines ''Line1'' ''Line2'' \<noteq> []
   \<and> (\<exists>l \<in> set (split_newline (calculateDiff diffLines ''Line1'' ''Line2'')).
         take 2 l = ''+ '' \<or> take 2 l = ''- '')"
proof -
  have h: "''Line1'' \<noteq> ''Line2''" by simp
  have v: "calculateDiff diffLines ''Line1'' ''Line2'' = [CHR ''-'', CHR '' '', CHR ''L'',
      CHR ''i'', CHR ''n'', CHR ''e'', CHR ''1'', newline, CHR ''+'', CHR '' '', CHR ''L'',
      CHR ''i'', CHR ''n'', CHR ''e'', CHR ''2'', newline]"
    by (simp add: calculateDiff_def diffLines_def render_differences_def newline_def
        edit_cost_def change_of_def same_kind_def append_marked_def mark_lines_def
        endsWith_newline_def replace_trailing_newlines_def Let_def)
  show ?thesis
    using h v calculateDiff_changed [OF h] by blast
qed

text \<open>
  C8. For every text, the empty one too, \<open>calculateDiff\<close> on the pair of the text
  with itself returns the sentinel of an unchanged text. The function is a function
  of its two arguments alone, so equal pairs give equal results.
\<close>

theorem calculateDiff_same: "calculateDiff diffLines A A = NO_DIFFERENCES"
  unfolding calculateDiff_def
  by (rule render_unchanged) (use diffLines_same in blast)

section \<open>Properties of the Publisher\<close>

text \<open>
  C10. The text that \<open>postToX\<close> sends has at most 280 characters: a recap of at
  most 280 characters is sent as it is, a longer one as its first 277 characters
  followed by three dots.
\<close>

theorem tweetText_bounded:
  "length (tweetText r) \<le> 280
   \<and> (length r \<le> 280 \<longrightarrow> tweetText r = r)
   \<and> (280 < length r \<longrightarrow> tweetText r = take 277 r @ ''...'')"
  by (simp add: tweetText_def MAX_TWEET_LENGTH_def)

theorem tweetText_bounded_witness:
  "length ''Fixed a bug.'' \<le> 280
   \<and> tweetText ''Fixed a bug.'' = ''Fixed a bug.''
   \<and> 280 < length (replicate 300 (CHR ''x''))
   \<and> tweetText (replicate 300 (CHR ''x'')) = replicate 277 (CHR ''x'') @ ''...''
   \<and> length (tweetText (replicate 300 (CHR ''x''))) = 280"
  using tweetText_bounded [of "''Fixed a bug.''"]
    tweetText_bounded [of "replicate 300 (CHR ''x'')"]
  by simp

section \<open>Properties of \<open>withRetry\<close>\<close>

lemma loop_return:
  "attempt \<le> maxAttempts config \<Longrightarrow> fn attempt = Inr v \<Longrightarrow>
   withRetry_loop fn config attempt lastError delays = (Inr v, delays)"
  by (subst withRetry_loop.simps) simp

lemma loop_retry:
  "attempt \<le> maxAttempts config \<Longrightarrow> fn attempt = Inl e \<Longrightarrow>
   withRetry_loop fn config attempt lastError delays =
     withRetry_loop fn config (Suc attempt) (Some e)
       (if attempt < maxAttempts config
        then delays @ [min (initialDelay config * backoffMultiplier config ^ (attempt - 1))
                         (maxDelay config)]
        else delays)"
  by (subst withRetry_loop.simps) simp

lemma loop_throw:
  "maxAttempts config < attempt \<Longrightarrow>
   withRetry_loop fn config attempt lastError delays = (Inl lastError, delays)"
  by (subst withRetry_loop.simps) simp

lemma withRetry_first:
  assumes "fn 1 = Inr v" and "1 \<le> maxAttempts config"
  shows "withRetry fn config = (Inr v, [])"
  unfolding withRetry_def using assms by (intro loop_return) auto

lemma withRetry_exhausted:
  assumes "fn 1 = Inl e1" and "fn 2 = Inl e2" and "fn 3 = Inl e3"
  shows "withRetry fn RETRY_CONFIG = (Inl (Some e3), [1000, 2000])"
proof -
  have m: "maxAttempts RETRY_CONFIG = 3" "initialDelay RETRY_CONFIG = 1000"
    "maxDelay RETRY_CONFIG = 10000" "backoffMultiplier RETRY_CONFIG = 2"
    by (simp_all add: RETRY_CONFIG_def)
  have "withRetry fn RETRY_CONFIG = withRetry_loop fn RETRY_CONFIG 2 (Some e1) [1000]"
    unfolding withRetry_def using loop_retry [of 1 RETRY_CONFIG fn e1 None "[]"] assms(1) m
    by (simp add: numeral_2_eq_2)
  also have "\<dots> = withRetry_loop fn RETRY_CONFIG 3 (Some e2) [1000, 2000]"
    using loop_retry [of 2 RETRY_CONFIG fn e2 "Some e1" "[1000]"] assms(2) m
    by (simp add: numeral_3_eq_3 numeral_2_eq_2)
  also have "\<dots> = withRetry_loop fn RETRY_CONFIG 4 (Some e3) [1000, 2000]"
    using loop_retry [of 3 RETRY_CONFIG fn e3 "Some e2" "[1000, 2000]"] assms(3) m
    by (simp add: eval_nat_numeral)
  also have "\<dots> = (Inl (Some e3), [1000, 2000])"
    using loop_throw [of RETRY_CONFIG 4 fn] m by simp
  finally show ?thesis .
qed

lemma withRetry_two_exhausted:
  assumes "fn 1 = Inl e1" and "fn 2 = Inl e2"
  shows "withRetry fn (RETRY_CONFIG\<lparr>maxAttempts := 2\<rparr>) = (Inl (Some e2), [1000])"
proof -
  let ?c = "RETRY_CONFIG\<lparr>maxAttempts := 2\<rparr>"
  have m: "maxAttempts ?c = 2" "initialDelay ?c = 1000"
    "maxDelay ?c = 10000" "backoffMultiplier ?c = 2"
    by (simp_all add: RETRY_CONFIG_def)
  have "withRetry fn ?c = withRetry_loop fn ?c 2 (Some e1) [1000]"
    unfolding withRetry_def using loop_retry [of 1 ?c fn e1 None "[]"] assms(1) m
    by (simp add: numeral_2_eq_2)
  also have "\<dots> = withRetry_loop fn ?c 3 (Some e2) [1000]"
    using loop_retry [of 2 ?c fn e2 "Some e1" "[1000]"] assms(2) m
    by (simp add: numeral_3_eq_3 numeral_2_eq_2)
  also have "\<dots> = (Inl (Some e2), [1000])"
    using loop_throw [of ?c 3 fn] m by simp
  finally show ?thesis .
qed

lemma withRetry_second:
  assumes "fn 1 = Inl e1" and "fn 2 = Inr v" and "2 \<le> maxAttempts config"
  shows "fst (withRetry fn config) = Inr v"
proof -
  have "withRetry fn config = withRetry_loop fn config 2 (Some e1)
          [min (initialDelay config * backoffMultiplier config ^ 0) (maxDelay config)]"
    unfolding withRetry_def using loop_retry [of 1 config fn e1 None "[]"] assms(1,3)
    by (simp add: numeral_2_eq_2)
  then show ?thesis
    using loop_return [of 2 config fn v] assms(2,3) by simp
qed

section \<open>Properties of the store\<close>

lemma kv_get_put: "kv_get t (kv_put now v None) = Some v"
  by (simp add: kv_get_def kv_put_def)

lemma kv_get_put_ttl:
  "kv_get t (kv_put now v (Some ttl)) = (if t < now + ttl then Some v else None)"
  by (simp add: kv_get_def kv_put_def)

lemma post_put_post: "post (put_post now postID p ttl kv) postID = kv_put now p ttl"
  by (simp add: put_post_def)

lemma post_put_latest: "post (put_latest now m kv) = post kv"
  by (simp add: put_latest_def)

section \<open>The scenarios evaluated\<close>

lemma unavailable_fails:
  "fetch_changelog (always unavailable n) = Inl ''Error fetching changelog: 503 Service Unavailable''"
  by (simp add: fetch_changelog_def unavailable_def always_def)

lemma served_ok: "fetch_changelog (always (served html) n) = Inr html"
  by (simp add: fetch_changelog_def served_def always_def)

lemma fetch_served:
  "fst (withRetry (\<lambda>n. fetch_changelog (always (served html) n)) RETRY_CONFIG) = Inr html"
  by (simp add: withRetry_first served_ok RETRY_CONFIG_def)

lemma recap_given_recap: "getGeminiRecap (recap_given d) = Some ''Recap''"
  by (simp add: getGeminiRecap_def withRetry_first RETRY_CONFIG_def recap_given_def trim_def is_space_def)

lemma tweet_accepted_success: "postToX ''d1'' ''Recap'' tweet_accepted = \<lparr>success = True, error = None\<rparr>"
  by (simp add: postToX_def withRetry_first RETRY_CONFIG_def tweet_accepted_def post_tweet_def)

lemma tweet_refused_failure: "\<not> success (postToX ''d1'' ''Recap'' tweet_refused)"
  by (simp add: postToX_def
      withRetry_two_exhausted [of _ "''[d1] Twitter API error: 403 Forbidden - ''" "''[d1] Twitter API error: 403 Forbidden - ''"]
      tweet_refused_def post_tweet_def)

lemma draft_pending:
  "t < 87400 \<Longrightarrow> kv_get t (post kv_with_draft ''d1'') = Some pending_draft"
  by (simp add: kv_with_draft_def post_put_post kv_get_put_ttl)

lemma draft_expired:
  "87400 \<le> t \<Longrightarrow> kv_get t (post kv_with_draft ''d1'') = None"
  by (simp add: kv_with_draft_def post_put_post kv_get_put_ttl)

lemma diff_Line1_Line2:
  "calculateDiff diffLines ''Line1'' ''Line2'' = ''- Line1'' @ newline # ''+ Line2'' @ [newline]"
  by (simp add: calculateDiff_def diffLines_def render_differences_def newline_def
        edit_cost_def change_of_def same_kind_def append_marked_def mark_lines_def
        endsWith_newline_def replace_trailing_newlines_def Let_def)

section \<open>Properties of the Change Detector\<close>

lemma handleScheduled_draft:
  assumes "validationErrors out = []"
    and "fst (withRetry (\<lambda>n. fetch_changelog (fetch_page out n)) RETRY_CONFIG) = Inr page"
    and "kv_get (clock out) (latest_changelog_markdown kv) = Some previousMarkdown"
    and "previousMarkdown \<noteq> convertToMarkdown out page"
    and "calculateDiff (diffLines_fn out) previousMarkdown (convertToMarkdown out page) = d"
    and "d \<noteq> NO_DIFFERENCES"
    and "getGeminiRecap (gemini_api out d) = Some r" and "r \<noteq> []"
  shows "handleScheduled env out kv =
     \<lparr>store = put_latest (clock out) (convertToMarkdown out page)
               (put_post (clock out) (randomUUID out)
                  \<lparr>recap = r, diff = d, originalChangelogUrl = TARGET_CHANGELOG_URL env,
                   timestamp = toISOString out, status = PENDING_CONFIRMATION\<rparr>
                  (Some 86400) kv),
      sent = [NewChangelogDetected
                (if CHANGELOG_NAME env \<noteq> [] then CHANGELOG_NAME env else TARGET_CHANGELOG_URL env)
                r (WORKER_URL env @ ''/confirm/'' @ randomUUID out)],
      published = [],
      outcome = ChangeDetected d\<rparr>"
  using assms by (simp add: handleScheduled_def Let_def)

text \<open>
  C9. If every one of the three attempts to fetch the changelog fails, the retries
  are exhausted after two delays, the cycle ends with an error report (one Telegram
  message with the last error), and the store after the cycle is the store before
  it: no snapshot is written and no draft is created.
\<close>

theorem handleScheduled_fetch_failure:
  assumes "validationErrors out = []"
    and "fetch_changelog (fetch_page out 1) = Inl e1"
    and "fetch_changelog (fetch_page out 2) = Inl e2"
    and "fetch_changelog (fetch_page out 3) = Inl e3"
  shows "withRetry (\<lambda>n. fetch_changelog (fetch_page out n)) RETRY_CONFIG
           = (Inl (Some e3), [1000, 2000])
       \<and> handleScheduled env out kv =
           \<lparr>store = kv, sent = [MonitorError e3], published = [], outcome = CycleError e3\<rparr>"
  using assms(1) withRetry_exhausted [of "\<lambda>n. fetch_changelog (fetch_page out n)", OF assms(2-4)]
  by (simp add: handleScheduled_def)

theorem handleScheduled_fetch_failure_witness:
  "validationErrors (scenario (always unavailable) diffLines) = []
   \<and> fetch_changelog (fetch_page (scenario (always unavailable) diffLines) 1)
       = Inl ''Error fetching changelog: 503 Service Unavailable''
   \<and> fetch_changelog (fetch_page (scenario (always unavailable) diffLines) 2)
       = Inl ''Error fetching changelog: 503 Service Unavailable''
   \<and> fetch_changelog (fetch_page (scenario (always unavailable) diffLines) 3)
       = Inl ''Error fetching changelog: 503 Service Unavailable''
   \<and> handleScheduled example_env (scenario (always unavailable) diffLines) (kv_with_snapshot ''Line1'')
       = \<lparr>store = kv_with_snapshot ''Line1'',
          sent = [MonitorError ''Error fetching changelog: 503 Service Unavailable''],
          published = [],
          outcome = CycleError ''Error fetching changelog: 503 Service Unavailable''\<rparr>"
proof -
  let ?out = "scenario (always unavailable) diffLines"
  have v: "validationErrors ?out = []" by (simp add: scenario_def)
  have f: "fetch_changelog (fetch_page ?out n)
             = Inl ''Error fetching changelog: 503 Service Unavailable''" for n
    by (simp add: scenario_def unavailable_fails)
  show ?thesis
    using v f handleScheduled_fetch_failure [OF v f [of 1] f [of 2] f [of 3], of example_env "kv_with_snapshot ''Line1''"]
    by simp
qed

text \<open>
  C5. For a source without a stored snapshot, a cycle whose fetch succeeds stores
  the converted content as the snapshot and ends in \<open>NoChange\<close>, whatever the
  content is: the drafts of the store are as before, no message is sent and nothing
  is posted.
\<close>

theorem handleScheduled_first_run:
  assumes "validationErrors out = []"
    and "fst (withRetry (\<lambda>n. fetch_changelog (fetch_page out n)) RETRY_CONFIG) = Inr page"
    and "kv_get (clock out) (latest_changelog_markdown kv) = None"
  shows "handleScheduled env out kv =
           \<lparr>store = kv\<lparr>latest_changelog_markdown :=
                     Some \<lparr>stored = convertToMarkdown out page, expiration = None\<rparr>\<rparr>,
            sent = [], published = [], outcome = NoChange\<rparr>"
  using assms by (simp add: handleScheduled_def put_latest_def kv_put_def)

theorem handleScheduled_first_run_witness:
  "validationErrors (scenario (always (served ''Line1'')) diffLines) = []
   \<and> fst (withRetry (\<lambda>n. fetch_changelog (fetch_page (scenario (always (served ''Line1'')) diffLines) n))
           RETRY_CONFIG) = Inr ''Line1''
   \<and> kv_get (clock (scenario (always (served ''Line1'')) diffLines)) (latest_changelog_markdown empty_kv) = None
   \<and> handleScheduled example_env (scenario (always (served ''Line1'')) diffLines) empty_kv
       = \<lparr>store = kv_with_snapshot ''Line1'', sent = [], published = [], outcome = NoChange\<rparr>"
proof -
  let ?out = "scenario (always (served ''Line1'')) diffLines"
  have v: "validationErrors ?out = []" by (simp add: scenario_def)
  have f: "fst (withRetry (\<lambda>n. fetch_changelog (fetch_page ?out n)) RETRY_CONFIG) = Inr ''Line1''"
    by (simp add: scenario_def fetch_served)
  have g: "kv_get (clock ?out) (latest_changelog_markdown empty_kv) = None"
    by (simp add: empty_kv_def kv_get_def)
  have c: "convertToMarkdown ?out ''Line1'' = ''Line1''"
    by (simp add: scenario_def keep_text_def)
  show ?thesis
    using v f g handleScheduled_first_run [OF v f g, of example_env]
    by (simp add: c empty_kv_def kv_with_snapshot_def)
qed

text \<open>
  A cycle whose content differs from the stored snapshot never meets the sentinel
  of \<open>calculateDiff\<close>, for every line diff whose parts spell the two texts, as the
  exact comparison of the library does: such a cycle ends in \<open>ChangeDetected\<close> and
  writes the fetched content as the snapshot, whatever the summarizer answers. The
  branch of \<open>handleScheduled\<close> that tests for the sentinel is taken by no cycle.
\<close>

lemma handleScheduled_differing_content:
  assumes "validationErrors out = []"
    and "fst (withRetry (\<lambda>n. fetch_changelog (fetch_page out n)) RETRY_CONFIG) = Inr page"
    and "kv_get (clock out) (latest_changelog_markdown kv) = Some previousMarkdown"
    and "previousMarkdown \<noteq> convertToMarkdown out page"
    and "concat (map val (filter (\<lambda>c. \<not> added c)
           (diffLines_fn out previousMarkdown (convertToMarkdown out page)))) = previousMarkdown"
    and "concat (map val (filter (\<lambda>c. \<not> removed c)
           (diffLines_fn out previousMarkdown (convertToMarkdown out page))))
           = convertToMarkdown out page"
  shows "calculateDiff (diffLines_fn out) previousMarkdown (convertToMarkdown out page)
           \<noteq> NO_DIFFERENCES"
    and "outcome (handleScheduled env out kv)
           = ChangeDetected
               (calculateDiff (diffLines_fn out) previousMarkdown (convertToMarkdown out page))"
    and "latest_changelog_markdown (store (handleScheduled env out kv))
           = Some \<lparr>stored = convertToMarkdown out page, expiration = None\<rparr>"
proof -
  let ?md = "convertToMarkdown out page"
  let ?d = "calculateDiff (diffLines_fn out) previousMarkdown ?md"
  have "\<exists>p \<in> set (diffLines_fn out previousMarkdown ?md). added p \<or> removed p"
    using script_differs [OF assms(5,6,4)] .
  then have "marked ?d"
    unfolding calculateDiff_def by (rule render_changed)
  then show d: "?d \<noteq> NO_DIFFERENCES"
    by (rule marked_facts(1))
  show "outcome (handleScheduled env out kv) = ChangeDetected ?d"
    using assms(1-4) d
    by (simp add: handleScheduled_def Let_def split: option.splits)
  show "latest_changelog_markdown (store (handleScheduled env out kv))
          = Some \<lparr>stored = ?md, expiration = None\<rparr>"
    using assms(1-4) d
    by (simp add: handleScheduled_def Let_def put_latest_def kv_put_def split: option.splits)
qed

section \<open>Properties of the Draft Lifecycle Manager\<close>

lemma confirm_pending:
  assumes "kv_get now (post kv postID) = Some p" and "status p = PENDING_CONFIRMATION"
  shows "confirm now postID x_api kv =
     (if success (postToX postID (recap p) x_api)
      then \<lparr>store = put_post now postID (p\<lparr>status := POSTED_TO_X\<rparr>) None kv,
            sent = [PostedSuccessfully postID],
            published = [tweetText (recap p)],
            outcome = Published\<rparr>
      else \<lparr>store = put_post now postID (p\<lparr>status := FAILED_TO_POST\<rparr>) None kv,
            sent = [PostFailed postID (failure_reason (postToX postID (recap p) x_api))],
            published = [tweetText (recap p)],
            outcome = PublishFailed (failure_reason (postToX postID (recap p) x_api))\<rparr>)"
  using assms by (simp add: confirm_def Let_def)

lemma confirm_posted:
  assumes "kv_get now (post kv postID) = Some p" and "status p = POSTED_TO_X"
  shows "confirm now postID x_api kv =
     \<lparr>store = kv, sent = [AlreadyPublishedNotice postID], published = [],
      outcome = AlreadyPublished\<rparr>"
  using assms by (simp add: confirm_def)

lemma confirm_failed:
  assumes "kv_get now (post kv postID) = Some p" and "status p = FAILED_TO_POST"
  shows "confirm now postID x_api kv =
     \<lparr>store = kv, sent = [StatusNotPending postID], published = [], outcome = NotPending\<rparr>"
  using assms by (simp add: confirm_def)

text \<open>
  C6. For a draft id that was never created, or whose entry has expired, \<open>confirm\<close>
  ends in \<open>NotFound\<close>, reported to the human as a link that may have expired; it
  does not call the Publisher and leaves the store as it is. The model has no
  branch that throws here: the source only calls \<open>sendTelegramMessage\<close>, which
  catches its own errors.
\<close>

theorem confirm_not_found:
  assumes "post kv postID = None
           \<or> (\<exists>e t. post kv postID = Some e \<and> expiration e = Some t \<and> t \<le> now)"
  shows "confirm now postID x_api kv =
           \<lparr>store = kv, sent = [LinkExpired postID], published = [], outcome = NotFound\<rparr>"
proof -
  from assms have "kv_get now (post kv postID) = None"
    by (auto simp: kv_get_def)
  then show ?thesis by (simp add: confirm_def)
qed

theorem confirm_not_found_witness:
  "post kv_with_draft ''d2'' = None
   \<and> confirm 2000 ''d2'' tweet_accepted kv_with_draft
       = \<lparr>store = kv_with_draft, sent = [LinkExpired ''d2''], published = [], outcome = NotFound\<rparr>
   \<and> post kv_with_draft ''d1'' = Some \<lparr>stored = pending_draft, expiration = Some 87400\<rparr>
   \<and> (87400::nat) \<le> 90000
   \<and> confirm 90000 ''d1'' tweet_accepted kv_with_draft
       = \<lparr>store = kv_with_draft, sent = [LinkExpired ''d1''], published = [], outcome = NotFound\<rparr>"
proof -
  have a: "post kv_with_draft ''d2'' = None"
    by (simp add: kv_with_draft_def put_post_def empty_kv_def no_posts_def)
  have b: "post kv_with_draft ''d1'' = Some \<lparr>stored = pending_draft, expiration = Some 87400\<rparr>"
    by (simp add: kv_with_draft_def put_post_def kv_put_def)
  show ?thesis
    using a b confirm_not_found [of kv_with_draft "''d2''" 2000 tweet_accepted]
      confirm_not_found [of kv_with_draft "''d1''" 90000 tweet_accepted]
    by simp
qed

lemma accepted_draft_stored:
  "post (store (confirm 2000 ''d1'' tweet_accepted kv_with_draft)) ''d1''
     = Some \<lparr>stored = pending_draft\<lparr>status := POSTED_TO_X\<rparr>, expiration = None\<rparr>"
proof -
  have h1: "kv_get 2000 (post kv_with_draft ''d1'') = Some pending_draft"
    by (simp add: draft_pending)
  have h2: "status pending_draft = PENDING_CONFIRMATION"
    by (simp add: pending_draft_def)
  show ?thesis
    using confirm_pending [OF h1 h2, of tweet_accepted] tweet_accepted_success
    by (simp add: pending_draft_def post_put_post kv_put_def)
qed

text \<open>
  C3. For a draft that is pending, two confirm calls in sequence, the second at any
  later time: the first call leaves the draft \<open>POSTED_TO_X\<close> or \<open>FAILED_TO_POST\<close>
  (published or publish failed); the second call ends in \<open>AlreadyPublished\<close> in the
  first case and in \<open>NotPending\<close> in the second, and leaves the store as the first
  call left it; across both calls \<open>postToX\<close> is called once. And a confirm call on
  any draft that is \<open>POSTED_TO_X\<close> changes nothing and posts nothing: no transition
  leaves the published state.
\<close>

theorem confirm_twice:
  assumes "kv_get now (post kv postID) = Some p" and "status p = PENDING_CONFIRMATION"
    and "kv_get t (post kv' postID') = Some p'" and "status p' = POSTED_TO_X"
  shows "(let first = confirm now postID x1 kv;
              second = confirm later postID x2 (store first)
          in (\<exists>q. kv_get later (post (store first) postID) = Some q
                 \<and> (status q = POSTED_TO_X \<or> status q = FAILED_TO_POST)
                 \<and> (outcome first = Published \<longleftrightarrow> status q = POSTED_TO_X)
                 \<and> outcome second = (if status q = POSTED_TO_X then AlreadyPublished else NotPending))
             \<and> store second = store first
             \<and> published first @ published second = [tweetText (recap p)])
       \<and> store (confirm t postID' x3 kv') = kv'
       \<and> published (confirm t postID' x3 kv') = []"
proof -
  have twice: "let first = confirm now postID x1 kv;
              second = confirm later postID x2 (store first)
          in (\<exists>q. kv_get later (post (store first) postID) = Some q
                 \<and> (status q = POSTED_TO_X \<or> status q = FAILED_TO_POST)
                 \<and> (outcome first = Published \<longleftrightarrow> status q = POSTED_TO_X)
                 \<and> outcome second = (if status q = POSTED_TO_X then AlreadyPublished else NotPending))
             \<and> store second = store first
             \<and> published first @ published second = [tweetText (recap p)]"
  proof (cases "success (postToX postID (recap p) x1)")
    case True
    let ?q = "p\<lparr>status := POSTED_TO_X\<rparr>"
    let ?kv = "put_post now postID ?q None kv"
    have g: "kv_get later (post ?kv postID) = Some ?q"
      by (simp add: post_put_post kv_get_put)
    show ?thesis
      using True confirm_pending [OF assms(1,2), of x1] confirm_posted [OF g, of x2] g
      by (simp add: Let_def)
  next
    case False
    let ?q = "p\<lparr>status := FAILED_TO_POST\<rparr>"
    let ?kv = "put_post now postID ?q None kv"
    have g: "kv_get later (post ?kv postID) = Some ?q"
      by (simp add: post_put_post kv_get_put)
    show ?thesis
      using False confirm_pending [OF assms(1,2), of x1] confirm_failed [OF g, of x2] g
      by (simp add: Let_def)
  qed
  have stays: "store (confirm t postID' x3 kv') = kv'" "published (confirm t postID' x3 kv') = []"
    by (simp_all add: confirm_posted [OF assms(3,4)])
  from twice stays show ?thesis by blast
qed

theorem confirm_twice_witness:
  "kv_get 2000 (post kv_with_draft ''d1'') = Some pending_draft
   \<and> status pending_draft = PENDING_CONFIRMATION
   \<and> outcome (confirm 2000 ''d1'' tweet_accepted kv_with_draft) = Published
   \<and> kv_get 3000 (post (store (confirm 2000 ''d1'' tweet_accepted kv_with_draft)) ''d1'')
       = Some (pending_draft\<lparr>status := POSTED_TO_X\<rparr>)
   \<and> status (pending_draft\<lparr>status := POSTED_TO_X\<rparr>) = POSTED_TO_X
   \<and> outcome (confirm 3000 ''d1'' tweet_accepted (store (confirm 2000 ''d1'' tweet_accepted kv_with_draft)))
       = AlreadyPublished
   \<and> store (confirm 3000 ''d1'' tweet_accepted (store (confirm 2000 ''d1'' tweet_accepted kv_with_draft)))
       = store (confirm 2000 ''d1'' tweet_accepted kv_with_draft)
   \<and> published (confirm 2000 ''d1'' tweet_accepted kv_with_draft)
       @ published (confirm 3000 ''d1'' tweet_accepted (store (confirm 2000 ''d1'' tweet_accepted kv_with_draft)))
       = [''Recap'']
   \<and> outcome (confirm 3000 ''d1'' tweet_accepted (store (confirm 2000 ''d1'' tweet_refused kv_with_draft)))
       = NotPending"
proof -
  let ?kv' = "store (confirm 2000 ''d1'' tweet_accepted kv_with_draft)"
  have h1: "kv_get 2000 (post kv_with_draft ''d1'') = Some pending_draft"
    by (simp add: draft_pending)
  have h2: "status pending_draft = PENDING_CONFIRMATION" by (simp add: pending_draft_def)
  have h3: "kv_get 3000 (post ?kv' ''d1'') = Some (pending_draft\<lparr>status := POSTED_TO_X\<rparr>)"
    by (simp add: accepted_draft_stored kv_get_def)
  have h4: "status (pending_draft\<lparr>status := POSTED_TO_X\<rparr>) = POSTED_TO_X" by simp
  have p: "outcome (confirm 2000 ''d1'' tweet_accepted kv_with_draft) = Published"
    using confirm_pending [OF h1 h2, of tweet_accepted] tweet_accepted_success
    by (simp add: pending_draft_def)
  have f: "outcome (confirm 2000 ''d1'' tweet_refused kv_with_draft) \<noteq> Published"
    using confirm_pending [OF h1 h2, of tweet_refused] tweet_refused_failure
    by (simp add: pending_draft_def)
  have t: "tweetText (recap pending_draft) = ''Recap''"
    by (simp add: pending_draft_def tweetText_def MAX_TWEET_LENGTH_def)
  show ?thesis
    using h1 h2 h3 h4 p f t
      confirm_twice [OF h1 h2 h3 h4, of tweet_accepted 3000 tweet_accepted tweet_accepted]
      confirm_twice [OF h1 h2 h3 h4, of tweet_refused 3000 tweet_accepted tweet_accepted]
    by (auto simp: Let_def)
qed

text \<open>
  C4 as stated does not hold. The claim is that every write of a draft carries an
  expiration. The draft \<open>d1\<close>, created at time 1000, expires at time 87400; after a
  confirm call at time 2000 that posts it, the entry has no expiration and is still
  read at time 1000000: the handler writes the outcome with \<open>put(key, value)\<close>,
  without \<open>expirationTtl\<close>.
\<close>

theorem draft_expiration_counterexample:
  "kv_get 2000 (post kv_with_draft ''d1'') = Some pending_draft
   \<and> status pending_draft = PENDING_CONFIRMATION
   \<and> kv_get 1000000 (post kv_with_draft ''d1'') = None
   \<and> expiration (the (post (store (confirm 2000 ''d1'' tweet_accepted kv_with_draft)) ''d1'')) = None
   \<and> kv_get 1000000 (post (store (confirm 2000 ''d1'' tweet_accepted kv_with_draft)) ''d1'')
       = Some (pending_draft\<lparr>status := POSTED_TO_X\<rparr>)"
proof -
  have h10: "kv_get 2000 (post kv_with_draft ''d1'') = Some pending_draft"
    by (simp add: draft_pending)
  have h11: "status pending_draft = PENDING_CONFIRMATION" by (simp add: pending_draft_def)
  have e: "kv_get 1000000 (post kv_with_draft ''d1'') = None"
    by (simp add: draft_expired)
  note c = accepted_draft_stored
  show ?thesis
    using h10 h11 e c by (simp add: kv_get_def)
qed

text \<open>
  C4, amended. The draft that a detection cycle creates is written with an
  expiration 86400 seconds after the cycle, from which time on it is read as
  absent. The write by which a confirm call on a pending draft records the outcome
  (\<open>POSTED_TO_X\<close> or \<open>FAILED_TO_POST\<close>) carries no expiration.
\<close>

theorem draft_expiration:
  assumes "validationErrors out = []"
    and "fst (withRetry (\<lambda>n. fetch_changelog (fetch_page out n)) RETRY_CONFIG) = Inr page"
    and "kv_get (clock out) (latest_changelog_markdown kv) = Some previousMarkdown"
    and "previousMarkdown \<noteq> convertToMarkdown out page"
    and "calculateDiff (diffLines_fn out) previousMarkdown (convertToMarkdown out page) = d"
    and "d \<noteq> NO_DIFFERENCES"
    and "getGeminiRecap (gemini_api out d) = Some r" and "r \<noteq> []"
    and "clock out + 86400 \<le> t"
    and "kv_get now (post kv' postID) = Some p" and "status p = PENDING_CONFIRMATION"
  shows "post (store (handleScheduled env out kv)) (randomUUID out)
           = Some \<lparr>stored = \<lparr>recap = r, diff = d, originalChangelogUrl = TARGET_CHANGELOG_URL env,
                             timestamp = toISOString out, status = PENDING_CONFIRMATION\<rparr>,
                   expiration = Some (clock out + 86400)\<rparr>
       \<and> kv_get t (post (store (handleScheduled env out kv)) (randomUUID out)) = None
       \<and> (\<exists>q. post (store (confirm now postID x_api kv')) postID
                  = Some \<lparr>stored = q, expiration = None\<rparr>
              \<and> (status q = POSTED_TO_X \<or> status q = FAILED_TO_POST))"
proof -
  have a: "post (store (handleScheduled env out kv)) (randomUUID out)
             = kv_put (clock out) \<lparr>recap = r, diff = d, originalChangelogUrl = TARGET_CHANGELOG_URL env,
                             timestamp = toISOString out, status = PENDING_CONFIRMATION\<rparr> (Some 86400)"
    by (simp add: handleScheduled_draft [OF assms(1-8)] post_put_latest post_put_post)
  have b: "kv_get t (post (store (handleScheduled env out kv)) (randomUUID out)) = None"
    unfolding a using assms(9) by (simp add: kv_get_put_ttl)
  have c: "\<exists>q. post (store (confirm now postID x_api kv')) postID
                  = Some \<lparr>stored = q, expiration = None\<rparr>
              \<and> (status q = POSTED_TO_X \<or> status q = FAILED_TO_POST)"
    using confirm_pending [OF assms(10,11), of x_api]
    by (auto simp: post_put_post kv_put_def)
  from a b c show ?thesis by (simp add: kv_put_def)
qed

theorem draft_expiration_witness:
  "validationErrors (scenario (always (served ''Line2'')) diffLines) = []
   \<and> kv_get 1000 (latest_changelog_markdown (kv_with_snapshot ''Line1'')) = Some ''Line1''
   \<and> calculateDiff diffLines ''Line1'' ''Line2'' \<noteq> NO_DIFFERENCES
   \<and> getGeminiRecap (recap_given (calculateDiff diffLines ''Line1'' ''Line2'')) = Some ''Recap''
   \<and> post (store (handleScheduled example_env (scenario (always (served ''Line2'')) diffLines)
                    (kv_with_snapshot ''Line1''))) ''d1''
       = Some \<lparr>stored = \<lparr>recap = ''Recap'', diff = calculateDiff diffLines ''Line1'' ''Line2'',
                         originalChangelogUrl = ''https://example.com/changelog'',
                         timestamp = ''2025-01-01T00:00:00.000Z'',
                         status = PENDING_CONFIRMATION\<rparr>,
               expiration = Some 87400\<rparr>
   \<and> kv_get 87400 (post (store (handleScheduled example_env (scenario (always (served ''Line2'')) diffLines)
                    (kv_with_snapshot ''Line1''))) ''d1'') = None
   \<and> kv_get 2000 (post kv_with_draft ''d1'') = Some pending_draft
   \<and> status pending_draft = PENDING_CONFIRMATION
   \<and> post (store (confirm 2000 ''d1'' tweet_accepted kv_with_draft)) ''d1''
       = Some \<lparr>stored = pending_draft\<lparr>status := POSTED_TO_X\<rparr>, expiration = None\<rparr>"
proof -
  let ?out = "scenario (always (served ''Line2'')) diffLines"
  let ?d = "calculateDiff diffLines ''Line1'' ''Line2''"
  have o: "validationErrors ?out = []" "convertToMarkdown ?out ''Line2'' = ''Line2''"
    "diffLines_fn ?out = diffLines" "gemini_api ?out = recap_given" "clock ?out = 1000"
    "randomUUID ?out = ''d1''" "toISOString ?out = ''2025-01-01T00:00:00.000Z''"
    by (simp_all add: scenario_def keep_text_def)
  have h2: "fst (withRetry (\<lambda>n. fetch_changelog (fetch_page ?out n)) RETRY_CONFIG) = Inr ''Line2''"
    by (simp add: scenario_def fetch_served)
  have h3: "kv_get (clock ?out) (latest_changelog_markdown (kv_with_snapshot ''Line1'')) = Some ''Line1''"
    by (simp add: kv_with_snapshot_def kv_get_def)
  have h4: "''Line1'' \<noteq> convertToMarkdown ?out ''Line2''" by (simp add: o)
  have h5: "calculateDiff (diffLines_fn ?out) ''Line1'' (convertToMarkdown ?out ''Line2'') = ?d"
    by (simp add: o)
  have h6: "?d \<noteq> NO_DIFFERENCES"
    by (simp add: diff_Line1_Line2 NO_DIFFERENCES_def)
  have h7: "getGeminiRecap (gemini_api ?out ?d) = Some ''Recap''"
    by (simp add: o recap_given_recap)
  have h8: "''Recap'' \<noteq> []" by simp
  have h9: "clock ?out + 86400 \<le> 87400" by (simp add: o)
  have h10: "kv_get 2000 (post kv_with_draft ''d1'') = Some pending_draft"
    by (simp add: draft_pending)
  have h11: "status pending_draft = PENDING_CONFIRMATION" by (simp add: pending_draft_def)
  note c = accepted_draft_stored
  note t = draft_expiration [OF o(1) h2 h3 h4 h5 h6 h7 h8 h9 h10 h11, of example_env tweet_accepted]
  have t1: "post (store (handleScheduled example_env ?out (kv_with_snapshot ''Line1''))) ''d1''
       = Some \<lparr>stored = \<lparr>recap = ''Recap'', diff = ?d,
                         originalChangelogUrl = ''https://example.com/changelog'',
                         timestamp = ''2025-01-01T00:00:00.000Z'',
                         status = PENDING_CONFIRMATION\<rparr>,
               expiration = Some 87400\<rparr>"
    using t by (simp add: o example_env_def)
  have t2: "kv_get 87400 (post (store (handleScheduled example_env ?out (kv_with_snapshot ''Line1''))) ''d1'')
       = None"
    using t by (simp add: o kv_get_def)
  have g: "kv_get 1000 (latest_changelog_markdown (kv_with_snapshot ''Line1'')) = Some ''Line1''"
    using h3 by (simp add: o)
  show ?thesis
    using o(1) g h6 recap_given_recap [of ?d] t1 t2 h10 h11 c by blast
qed

subsection \<open>Invocations that overlap\<close>

lemma run_two_append:
  "run_two now postID x1 x2 (as @ bs) st = run_two now postID x1 x2 bs (run_two now postID x1 x2 as st)"
proof (induction as arbitrary: st)
  case Nil
  then show ?case by simp
next
  case (Cons a as)
  obtain t1 t2 s where st: "st = (t1, t2, s)" by (cases st)
  show ?case unfolding st using Cons.IH by (simp split: prod.splits)
qed

lemma run_two_both_finished:
  "run_two now postID x1 x2 bs (Finished a, Finished b, s) = (Finished a, Finished b, s)"
  by (induction bs) auto

lemma run_two_first_finished:
  "run_two now postID x1 x2 (replicate n True) (Finished a, t2, s) = (Finished a, t2, s)"
  by (induction n) auto

lemma three_steps:
  "run_two now postID x1 x2 [True, True, True] (Reading, t2, fresh kv) =
     (Finished (outcome (confirm now postID x1 kv)), t2,
      \<lparr>kv_now = store (confirm now postID x1 kv),
       messages = sent (confirm now postID x1 kv),
       posted = published (confirm now postID x1 kv)\<rparr>)"
  by (auto simp: confirm_def fresh_def Let_def split: option.splits)

lemma run_two_second_reads:
  assumes "confirm_step now postID x2 Reading s = (Finished b, s')" and "False \<in> set bs"
  shows "run_two now postID x1 x2 bs (Finished a, Reading, s) = (Finished a, Finished b, s')"
  using assms(2)
proof (induction bs)
  case Nil
  then show ?case by simp
next
  case (Cons c bs)
  show ?case
  proof (cases c)
    case True
    with Cons show ?thesis by simp
  next
    case False
    then show ?thesis using assms(1) by (simp add: run_two_both_finished)
  qed
qed

text \<open>
  C2 as stated does not hold. The claim is that of two overlapping confirm calls
  on a fresh pending draft at most one observes it pending and calls the
  Publisher. The handler reads the entry, awaits \<open>postToX\<close>, and then writes the
  entry without a condition. When the two invocations take their steps in turn,
  both read the draft as pending, both call \<open>postToX\<close> and both end in
  \<open>Published\<close>: the text is posted twice.
\<close>

theorem confirm_overlap_counterexample:
  "kv_get 2000 (post kv_with_draft ''d1'') = Some pending_draft
   \<and> status pending_draft = PENDING_CONFIRMATION
   \<and> run_two 2000 ''d1'' tweet_accepted tweet_accepted [True, False, True, False, True, False]
        (Reading, Reading, fresh kv_with_draft)
       = (Finished Published, Finished Published,
          \<lparr>kv_now = put_post 2000 ''d1'' (pending_draft\<lparr>status := POSTED_TO_X\<rparr>) None
                      (put_post 2000 ''d1'' (pending_draft\<lparr>status := POSTED_TO_X\<rparr>) None kv_with_draft),
           messages = [PostedSuccessfully ''d1'', PostedSuccessfully ''d1''],
           posted = [''Recap'', ''Recap'']\<rparr>)"
proof -
  have h1: "kv_get 2000 (post kv_with_draft ''d1'') = Some pending_draft"
    by (simp add: draft_pending)
  have h2: "status pending_draft = PENDING_CONFIRMATION" by (simp add: pending_draft_def)
  have r: "recap pending_draft = ''Recap''" by (simp add: pending_draft_def)
  have t: "tweetText ''Recap'' = ''Recap''"
    by (simp add: tweetText_def MAX_TWEET_LENGTH_def)
  have "run_two 2000 ''d1'' tweet_accepted tweet_accepted [True, False, True, False, True, False]
        (Reading, Reading, fresh kv_with_draft)
       = (Finished Published, Finished Published,
          \<lparr>kv_now = put_post 2000 ''d1'' (pending_draft\<lparr>status := POSTED_TO_X\<rparr>) None
                      (put_post 2000 ''d1'' (pending_draft\<lparr>status := POSTED_TO_X\<rparr>) None kv_with_draft),
           messages = [PostedSuccessfully ''d1'', PostedSuccessfully ''d1''],
           posted = [''Recap'', ''Recap'']\<rparr>)"
    by (simp add: fresh_def h1 h2 r t tweet_accepted_success)
  with h1 h2 show ?thesis by blast
qed

text \<open>
  C2, amended. If confirm is invoked twice for the same id on a fresh pending
  draft and the second invocation takes its first step, the read of the entry,
  after the first invocation has taken its three steps, so after its write, then
  whatever the order of the later steps, \<open>postToX\<close> is called once in total, the
  first invocation ends in \<open>Published\<close> or \<open>PublishFailed\<close> and the second in
  \<open>AlreadyPublished\<close> or \<open>NotPending\<close>.
\<close>

theorem confirm_read_after_write:
  assumes "kv_get now (post kv postID) = Some p" and "status p = PENDING_CONFIRMATION"
    and "3 \<le> n" and "False \<in> set bs"
  shows "\<exists>a b s. run_two now postID x1 x2 (replicate n True @ bs) (Reading, Reading, fresh kv)
                   = (Finished a, Finished b, s)
               \<and> posted s = [tweetText (recap p)]
               \<and> (a = Published \<or> (\<exists>reason. a = PublishFailed reason))
               \<and> (b = AlreadyPublished \<or> b = NotPending)"
proof -
  let ?c = "confirm now postID x1 kv"
  let ?s = "\<lparr>kv_now = store ?c, messages = sent ?c, posted = published ?c\<rparr>"
  obtain m where n: "n = 3 + m" using assms(3) by (metis le_Suc_ex)
  have r: "replicate n True = [True, True, True] @ replicate m True"
    unfolding n by (simp add: numeral_3_eq_3)
  have first: "run_two now postID x1 x2 (replicate n True) (Reading, Reading, fresh kv)
                 = (Finished (outcome ?c), Reading, ?s)"
    unfolding r run_two_append three_steps by (rule run_two_first_finished)
  have c: "published ?c = [tweetText (recap p)]"
    "outcome ?c = Published \<or> (\<exists>reason. outcome ?c = PublishFailed reason)"
    "\<exists>q. kv_get now (post (store ?c) postID) = Some q \<and> status q \<noteq> PENDING_CONFIRMATION"
    using confirm_pending [OF assms(1,2), of x1]
    by (auto simp: post_put_post kv_get_put split: if_splits)
  then obtain q where q: "kv_get now (post (store ?c) postID) = Some q"
    and nq: "status q \<noteq> PENDING_CONFIRMATION" by blast
  obtain b s' where b: "confirm_step now postID x2 Reading ?s = (Finished b, s')"
    and bo: "b = AlreadyPublished \<or> b = NotPending" and ps: "posted s' = posted ?s"
    using q nq by (cases "status q = POSTED_TO_X") auto
  have "run_two now postID x1 x2 (replicate n True @ bs) (Reading, Reading, fresh kv)
          = (Finished (outcome ?c), Finished b, s')"
    unfolding run_two_append first using run_two_second_reads [OF b assms(4)] .
  with c bo ps show ?thesis by auto
qed

theorem confirm_read_after_write_witness:
  "kv_get 2000 (post kv_with_draft ''d1'') = Some pending_draft
   \<and> status pending_draft = PENDING_CONFIRMATION
   \<and> (3::nat) \<le> 3
   \<and> False \<in> set [False, True, False, False]
   \<and> run_two 2000 ''d1'' tweet_accepted tweet_accepted (replicate 3 True @ [False, True, False, False])
        (Reading, Reading, fresh kv_with_draft)
       = (Finished Published, Finished AlreadyPublished,
          \<lparr>kv_now = put_post 2000 ''d1'' (pending_draft\<lparr>status := POSTED_TO_X\<rparr>) None kv_with_draft,
           messages = [PostedSuccessfully ''d1'', AlreadyPublishedNotice ''d1''],
           posted = [''Recap'']\<rparr>)"
proof -
  have h1: "kv_get 2000 (post kv_with_draft ''d1'') = Some pending_draft"
    by (simp add: draft_pending)
  have h2: "status pending_draft = PENDING_CONFIRMATION" by (simp add: pending_draft_def)
  have h3: "(3::nat) \<le> 3" by simp
  have h4: "False \<in> set [False, True, False, False]" by simp
  have r: "recap pending_draft = ''Recap''" by (simp add: pending_draft_def)
  have t: "tweetText ''Recap'' = ''Recap''"
    by (simp add: tweetText_def MAX_TWEET_LENGTH_def)
  have e: "run_two 2000 ''d1'' tweet_accepted tweet_accepted (replicate 3 True @ [False, True, False, False])
        (Reading, Reading, fresh kv_with_draft)
       = (Finished Published, Finished AlreadyPublished,
          \<lparr>kv_now = put_post 2000 ''d1'' (pending_draft\<lparr>status := POSTED_TO_X\<rparr>) None kv_with_draft,
           messages = [PostedSuccessfully ''d1'', AlreadyPublishedNotice ''d1''],
           posted = [''Recap'']\<rparr>)"
    by (simp add: numeral_3_eq_3 fresh_def h1 h2 r t tweet_accepted_success post_put_post kv_get_put)
  show ?thesis
    using h1 h2 h3 h4 e
      confirm_read_after_write [OF h1 h2 h3 h4, of tweet_accepted tweet_accepted]
    by blast
qed

end
